theory Spec2Isabelle
  imports Main "HOL-Library.Word"
begin

section \<open>Machine types and faults\<close>

text \<open>
  The header \<^verbatim>\<open>include/glow/Base/Type.h\<close> works on three integer types.
  \<^item> \<^verbatim>\<open>size_t\<close> is an unsigned machine word whose width the platform fixes. The model
    keeps the width as the type parameter \<open>'w\<close>: a \<^verbatim>\<open>size_t\<close> is a \<open>'w word\<close>, and
    \<open>*\<close> on it wraps around modulo \<open>2 ^ LENGTH('w)\<close> as the C++ operator does.
  \<^item> \<^verbatim>\<open>unsigned char\<close> (the type of \<^verbatim>\<open>numSizes_\<close> and the underlying type of
    \<^verbatim>\<open>ElemKind\<close>) is an \<open>8 word\<close>.
  \<^item> Lengths of an \<^verbatim>\<open>llvm::ArrayRef\<close> and loop counters are natural numbers; they
    stay far below any word bound in every loop of the header.
\<close>

type_synonym 'w size_t = "'w word"
type_synonym uchar = "8 word"

text \<open>
  The ways an operation of the header can end without a result.
  \<^item> \<open>AssertionFailed\<close>: a failed \<^verbatim>\<open>assert(...)\<close>, which aborts the process. The
    model takes assertions as compiled in (no \<^verbatim>\<open>NDEBUG\<close>).
  \<^item> \<open>Unreachable\<close>: control reached \<^verbatim>\<open>glow_unreachable()\<close>.
  \<^item> \<open>OutOfBounds\<close>: an index past the end of a C array where the source performs
    no check at all. C++ gives such a read no defined result; in particular it is
    not an abort.
\<close>

datatype fault = AssertionFailed | Unreachable | OutOfBounds

text \<open>
  Modelled from the spec: the macro \<^verbatim>\<open>glow_unreachable()\<close> comes from
  \<^verbatim>\<open>glow/Support/Compiler.h\<close>, which is not among the sources. The specification
  describes reaching it as a fatal programming error that aborts the operation.
\<close>

definition glow_unreachable :: "fault + 'a" where
  "glow_unreachable = Inl Unreachable"

text \<open>An outcome is a fail-fast one when it is an abort raised by a check in the code.\<close>

fun fails_fast :: "fault + 'a \<Rightarrow> bool" where
  "fails_fast (Inl AssertionFailed) = True"
| "fails_fast (Inl Unreachable) = True"
| "fails_fast (Inl OutOfBounds) = False"
| "fails_fast (Inr v) = False"

definition max_tensor_dimensions :: nat where
  "max_tensor_dimensions = 6"

section \<open>ShapeNHWC\<close>

text \<open>
  The four fields are \<^verbatim>\<open>size_t\<close>; the record leaves the field type \<open>'s\<close> open and every
  operation below uses it at \<open>'w size_t\<close>.
\<close>

record 's ShapeNHWC =
  n :: 's
  h :: 's
  w :: 's
  c :: 's

text \<open>The constructor from an \<^verbatim>\<open>ArrayRef\<close>: the assertion, then four reads.\<close>

definition ShapeNHWC_of_shape :: "'w::len size_t list \<Rightarrow> fault + 'w size_t ShapeNHWC" where
  "ShapeNHWC_of_shape shape =
     (if length shape = 4
      then Inr \<lparr> n = shape ! 0, h = shape ! 1, w = shape ! 2, c = shape ! 3 \<rparr>
      else Inl AssertionFailed)"

text \<open>The constructor from four positional values.\<close>

definition ShapeNHWC_of_values ::
  "'w::len size_t \<Rightarrow> 'w size_t \<Rightarrow> 'w size_t \<Rightarrow> 'w size_t \<Rightarrow> 'w size_t ShapeNHWC" where
  "ShapeNHWC_of_values samples height width channels =
     \<lparr> n = samples, h = height, w = width, c = channels \<rparr>"

definition equals :: "'w::len size_t ShapeNHWC \<Rightarrow> 'w size_t ShapeNHWC \<Rightarrow> bool" where
  "equals this other \<longleftrightarrow>
     n this = n other \<and> h this = h other \<and> w this = w other \<and> c this = c other"

text \<open>\<^verbatim>\<open>operator==(const ShapeNHWC &, const ShapeNHWC &)\<close>.\<close>

definition ShapeNHWC_operator_eq :: "'w::len size_t ShapeNHWC \<Rightarrow> 'w size_t ShapeNHWC \<Rightarrow> bool" where
  "ShapeNHWC_operator_eq LHS RHS = equals LHS RHS"

section \<open>flattenCdr\<close>

text \<open>
  The loop \<^verbatim>\<open>for (size_t i = 2; i < dims.size(); i++) rest *= dims[i];\<close> with its
  counter and accumulator as arguments.
\<close>

function flattenCdr_loop :: "nat \<Rightarrow> 'w::len size_t list \<Rightarrow> 'w size_t \<Rightarrow> 'w size_t" where
  "flattenCdr_loop i dims rest =
     (if i < length dims then flattenCdr_loop (i + 1) dims (rest * dims ! i) else rest)"
  by pat_completeness auto
termination
  by (relation "measure (\<lambda>(i, dims, rest). length dims - i)") auto

declare flattenCdr_loop.simps [simp del]

definition flattenCdr :: "'w::len size_t list \<Rightarrow> fault + ('w size_t \<times> 'w size_t)" where
  "flattenCdr dims =
     (if length dims > 1
      then (let first = dims ! 0; rest = dims ! 1
            in Inr (first, flattenCdr_loop 2 dims rest))
      else Inl AssertionFailed)"

section \<open>ElemKind\<close>

text \<open>
  \<^verbatim>\<open>enum class ElemKind : unsigned char\<close> has a fixed underlying type, so every
  \<^verbatim>\<open>unsigned char\<close> value is a value of the enumeration; five of them are named.
\<close>

type_synonym ElemKind = uchar

definition FloatTy :: ElemKind where "FloatTy = 0"
definition DoubleTy :: ElemKind where "DoubleTy = 1"
definition Int8Ty :: ElemKind where "Int8Ty = 2"
definition Int32Ty :: ElemKind where "Int32Ty = 3"
definition IndexTy :: ElemKind where "IndexTy = 4"

definition named_kinds :: "ElemKind list" where
  "named_kinds = [FloatTy, DoubleTy, Int8Ty, Int32Ty, IndexTy]"

text \<open>
  Modelled from the spec: the values of \<^verbatim>\<open>sizeof(float)\<close>, \<^verbatim>\<open>sizeof(double)\<close>,
  \<^verbatim>\<open>sizeof(int8_t)\<close> and \<^verbatim>\<open>sizeof(int32_t)\<close> are fixed by the platform, not by the
  sources; the byte sizes are those of the specification's table. \<^verbatim>\<open>sizeof(size_t)\<close>
  is the width of the \<^verbatim>\<open>size_t\<close> word in 8-bit bytes.
\<close>

definition sizeof_float :: nat where "sizeof_float = 4"
definition sizeof_double :: nat where "sizeof_double = 8"
definition sizeof_int8_t :: nat where "sizeof_int8_t = 1"
definition sizeof_int32_t :: nat where "sizeof_int32_t = 4"
definition sizeof_size_t :: "'w::len itself \<Rightarrow> nat" where
  "sizeof_size_t T = LENGTH('w) div 8"

text \<open>
  \<^verbatim>\<open>static unsigned getElementSize(ElemKind Ty)\<close>: the switch over the five named
  kinds, and \<^verbatim>\<open>glow_unreachable()\<close> after it. The result is a small byte count, read
  as a natural number.
\<close>

definition getElementSize :: "'w::len itself \<Rightarrow> ElemKind \<Rightarrow> fault + nat" where
  "getElementSize T Ty =
     (if Ty = FloatTy then Inr sizeof_float
      else if Ty = DoubleTy then Inr sizeof_double
      else if Ty = Int8Ty then Inr sizeof_int8_t
      else if Ty = Int32Ty then Inr sizeof_int32_t
      else if Ty = IndexTy then Inr (sizeof_size_t T)
      else glow_unreachable)"

text \<open>
  \<^verbatim>\<open>static llvm::StringRef getElementName(ElemKind Ty)\<close>: a local table of five names
  indexed by \<^verbatim>\<open>(int)Ty\<close>. The source has no check on the index; past the end of the
  table the read is \<open>OutOfBounds\<close>.
\<close>

definition names :: "string list" where
  "names = [''float'', ''double'', ''i8'', ''i32'', ''index'']"

definition getElementName :: "ElemKind \<Rightarrow> fault + string" where
  "getElementName Ty =
     (if unat Ty < length names then Inr (names ! unat Ty) else Inl OutOfBounds)"

section \<open>Type\<close>

text \<open>
  \<^verbatim>\<open>struct Type\<close>: the inline array \<^verbatim>\<open>size_t sizes_[max_tensor_dimensions]\<close> is a list
  (of length \<open>max_tensor_dimensions\<close> in every object), \<^verbatim>\<open>numSizes_\<close> an
  \<^verbatim>\<open>unsigned char\<close>. The members \<^verbatim>\<open>sizes_\<close>, \<^verbatim>\<open>numSizes_\<close> and \<^verbatim>\<open>elementType_\<close>
  lose their trailing underscore, which a name cannot end with here. The slot type \<open>'s\<close> is \<open>'w size_t\<close> in every operation.
\<close>

record 's Type =
  sizes :: "'s list"
  numSizes :: uchar
  elementType :: ElemKind

text \<open>
  The default member initialisers: \<^verbatim>\<open>sizes_ = {0,}\<close> zero-fills the array,
  \<^verbatim>\<open>numSizes_{0}\<close>, \<^verbatim>\<open>elementType_{ElemKind::IndexTy}\<close>. \<^verbatim>\<open>Type() = default\<close>
  produces exactly this object.
\<close>

definition Type_default :: "'w::len size_t Type" where
  "Type_default =
     \<lparr> sizes = replicate max_tensor_dimensions 0, numSizes = 0, elementType = IndexTy \<rparr>"

text \<open>
  The copy loop of the constructor,
  \<^verbatim>\<open>for (size_t i = 0, e = dims.size(); i < e; i++) sizes_[i] = dims[i];\<close>
  with the counter, the bound and the array \<^verbatim>\<open>sizes_\<close> (here \<open>slots\<close>) as arguments.
\<close>

function Type_copy_loop ::
  "nat \<Rightarrow> nat \<Rightarrow> 'w::len size_t list \<Rightarrow> 'w size_t list \<Rightarrow> 'w size_t list" where
  "Type_copy_loop i e dims slots =
     (if i < e then Type_copy_loop (i + 1) e dims (slots[i := dims ! i]) else slots)"
  by pat_completeness auto
termination
  by (relation "measure (\<lambda>(i, e, dims, slots). e - i)") auto

declare Type_copy_loop.simps [simp del]

text \<open>
  \<^verbatim>\<open>Type(ElemKind elemTy, llvm::ArrayRef<size_t> dims)\<close>: the members start from their
  default initialisers, \<^verbatim>\<open>elementType_\<close> from \<^verbatim>\<open>elemTy\<close>; then the assertion, the
  copy loop, and the conversion of \<^verbatim>\<open>dims.size()\<close> to \<^verbatim>\<open>unsigned char\<close>.
\<close>

definition Type_init :: "ElemKind \<Rightarrow> 'w::len size_t list \<Rightarrow> fault + 'w size_t Type" where
  "Type_init elemTy dims =
     (if length dims < max_tensor_dimensions
      then Inr \<lparr> sizes = Type_copy_loop 0 (length dims) dims (sizes (Type_default :: 'w size_t Type)),
                 numSizes = of_nat (length dims),
                 elementType = elemTy \<rparr>
      else Inl AssertionFailed)"

text \<open>The loop of \<^verbatim>\<open>isEqual\<close>, with its early \<^verbatim>\<open>return false\<close>.\<close>

function isEqual_loop :: "nat \<Rightarrow> 'w::len size_t Type \<Rightarrow> 'w size_t Type \<Rightarrow> bool" where
  "isEqual_loop i this other =
     (if i < unat (numSizes this)
      then (if sizes this ! i \<noteq> sizes other ! i then False
            else isEqual_loop (i + 1) this other)
      else True)"
  by pat_completeness auto
termination
  by (relation "measure (\<lambda>(i, this, other). unat (numSizes this) - i)") auto

declare isEqual_loop.simps [simp del]

definition isEqual :: "'w::len size_t Type \<Rightarrow> 'w size_t Type \<Rightarrow> bool" where
  "isEqual this other =
     (if elementType this \<noteq> elementType other then False
      else if numSizes this \<noteq> numSizes other then False
      else isEqual_loop 0 this other)"

text \<open>\<^verbatim>\<open>operator==(const Type &, const Type &)\<close>.\<close>

definition Type_operator_eq :: "'w::len size_t Type \<Rightarrow> 'w size_t Type \<Rightarrow> bool" where
  "Type_operator_eq LHS RHS = isEqual LHS RHS"

definition getElementType :: "'w::len size_t Type \<Rightarrow> ElemKind" where
  "getElementType this = elementType this"

text \<open>
  \<^verbatim>\<open>dims()\<close> returns the view \<^verbatim>\<open>{sizes_, numSizes_}\<close>: the first \<^verbatim>\<open>numSizes_\<close> slots of
  the array.
\<close>

definition dims :: "'w::len size_t Type \<Rightarrow> 'w size_t list" where
  "dims this = take (unat (numSizes this)) (sizes this)"

text \<open>The loop of \<^verbatim>\<open>size()\<close>: \<^verbatim>\<open>s *= size_t(sizes_[i])\<close>.\<close>

function size_loop :: "nat \<Rightarrow> 'w::len size_t Type \<Rightarrow> 'w size_t \<Rightarrow> 'w size_t" where
  "size_loop i this s =
     (if i < unat (numSizes this) then size_loop (i + 1) this (s * sizes this ! i) else s)"
  by pat_completeness auto
termination
  by (relation "measure (\<lambda>(i, this, s). unat (numSizes this) - i)") auto

declare size_loop.simps [simp del]

definition size_of :: "'w::len size_t Type \<Rightarrow> 'w size_t" where
  "size_of this = (if numSizes this = 0 then 0 else size_loop 0 this 1)"

text \<open>
  The reads \<^verbatim>\<open>sizes_[i]\<close> of \<^verbatim>\<open>isEqual\<close>, \<^verbatim>\<open>size\<close> and of a user of \<^verbatim>\<open>dims()\<close> carry
  no check. They stay inside the array exactly for the objects below: the array has
  its \<open>max_tensor_dimensions\<close> slots and \<^verbatim>\<open>numSizes_\<close> does not count past them.
  Both constructors produce such objects. For any other object C++ leaves the reads
  undefined; every statement below about a read of a slot is made under \<open>in_bounds\<close>.
\<close>

definition in_bounds :: "'w::len size_t Type \<Rightarrow> bool" where
  "in_bounds this \<longleftrightarrow>
     length (sizes this) = max_tensor_dimensions \<and>
     unat (numSizes this) \<le> max_tensor_dimensions"

section \<open>The loops in closed form\<close>

text \<open>
  Each loop of the header is characterised once, by computation induction along its own
  recursion; the theorems about the operations use these characterisations only.
\<close>

lemma Type_copy_loop_eq:
  "e = length ds \<Longrightarrow> i \<le> e \<Longrightarrow> e \<le> length sl \<Longrightarrow>
   Type_copy_loop i e ds sl = take i sl @ drop i ds @ drop e sl"
proof (induction i e ds sl rule: Type_copy_loop.induct)
  case (1 i e ds sl)
  show ?case
  proof (cases "i < e")
    case True
    let ?sl = "sl[i := ds ! i]"
    have "Type_copy_loop i e ds sl = Type_copy_loop (i + 1) e ds ?sl"
      using True by (subst Type_copy_loop.simps) simp
    also have "\<dots> = take (i + 1) ?sl @ drop (i + 1) ds @ drop e ?sl"
      using "1.IH" [OF True] "1.prems" True by simp
    also have "take (i + 1) ?sl = take i sl @ [ds ! i]"
      using True "1.prems" by (simp add: take_Suc_conv_app_nth)
    also have "drop e ?sl = drop e sl"
      using True by simp
    finally show ?thesis
      using True "1.prems" by (simp add: Cons_nth_drop_Suc)
  next
    case False
    then show ?thesis using "1.prems" by (subst Type_copy_loop.simps) simp
  qed
qed

lemma isEqual_loop_iff:
  "isEqual_loop i a b \<longleftrightarrow> (\<forall>j. i \<le> j \<and> j < unat (numSizes a) \<longrightarrow> sizes a ! j = sizes b ! j)"
proof (induction i a b rule: isEqual_loop.induct)
  case (1 i a b)
  show ?case
  proof (cases "i < unat (numSizes a)")
    case True
    show ?thesis
    proof (cases "sizes a ! i = sizes b ! i")
      case eq: True
      have "isEqual_loop i a b = isEqual_loop (i + 1) a b"
        using True eq by (subst isEqual_loop.simps) simp
      also have "\<dots> \<longleftrightarrow> (\<forall>j. i + 1 \<le> j \<and> j < unat (numSizes a) \<longrightarrow> sizes a ! j = sizes b ! j)"
        using "1.IH" [OF True] eq by simp
      also have "\<dots> \<longleftrightarrow> (\<forall>j. i \<le> j \<and> j < unat (numSizes a) \<longrightarrow> sizes a ! j = sizes b ! j)"
        using eq by (metis Suc_eq_plus1 Suc_leI le_neq_implies_less Suc_le_lessD less_imp_le_nat)
      finally show ?thesis .
    next
      case False
      then have "\<not> isEqual_loop i a b"
        using True by (subst isEqual_loop.simps) simp
      then show ?thesis using True False by auto
    qed
  next
    case False
    then have "isEqual_loop i a b"
      by (subst isEqual_loop.simps) simp
    then show ?thesis using False by auto
  qed
qed

lemma size_loop_eq:
  "i \<le> unat (numSizes t) \<Longrightarrow> unat (numSizes t) \<le> length (sizes t) \<Longrightarrow>
   size_loop i t s = s * prod_list (drop i (dims t))"
proof (induction i t s rule: size_loop.induct)
  case (1 i t s)
  show ?case
  proof (cases "i < unat (numSizes t)")
    case True
    have d: "drop i (dims t) = sizes t ! i # drop (i + 1) (dims t)"
      using True "1.prems" by (simp add: dims_def Cons_nth_drop_Suc [symmetric])
    have "size_loop i t s = size_loop (i + 1) t (s * sizes t ! i)"
      using True by (subst size_loop.simps) simp
    also have "\<dots> = s * sizes t ! i * prod_list (drop (i + 1) (dims t))"
      using "1.IH" [OF True] "1.prems" True by simp
    finally show ?thesis by (simp add: d mult.assoc)
  next
    case False
    then show ?thesis using "1.prems" by (subst size_loop.simps) (simp add: dims_def)
  qed
qed

lemma flattenCdr_loop_eq:
  "i \<le> length ds \<Longrightarrow> flattenCdr_loop i ds r = r * prod_list (drop i ds)"
proof (induction i ds r rule: flattenCdr_loop.induct)
  case (1 i ds r)
  show ?case
  proof (cases "i < length ds")
    case True
    have "flattenCdr_loop i ds r = flattenCdr_loop (i + 1) ds (r * ds ! i)"
      using True by (subst flattenCdr_loop.simps) simp
    also have "\<dots> = r * ds ! i * prod_list (drop (i + 1) ds)"
      using "1.IH" [OF True] True by simp
    finally show ?thesis
      using True by (simp add: Cons_nth_drop_Suc [symmetric] mult.assoc)
  next
    case False
    then show ?thesis using "1.prems" by (subst flattenCdr_loop.simps) simp
  qed
qed

lemma unat_prod_list:
  "unat (prod_list xs :: 'w::len word) = prod_list (map unat xs) mod 2 ^ LENGTH('w)"
proof (induction xs)
  case Nil
  show ?case by simp
next
  case (Cons x xs)
  have "unat (x * prod_list xs) = unat x * unat (prod_list xs) mod 2 ^ LENGTH('w)"
    by (simp add: unat_word_ariths)
  also have "\<dots> = unat x * (prod_list (map unat xs) mod 2 ^ LENGTH('w)) mod 2 ^ LENGTH('w)"
    by (simp add: Cons.IH)
  also have "\<dots> = unat x * prod_list (map unat xs) mod 2 ^ LENGTH('w)"
    by (simp add: mod_mult_right_eq)
  finally show ?case by simp
qed


lemma unat_numSizes_of_length:
  "k < max_tensor_dimensions \<Longrightarrow> unat (of_nat k :: uchar) = k"
  by (simp add: max_tensor_dimensions_def unat_of_nat)

lemma Type_init_Inr:
  "length D < max_tensor_dimensions \<Longrightarrow>
   Type_init K D =
     Inr \<lparr> sizes = D @ replicate (max_tensor_dimensions - length D) 0,
           numSizes = of_nat (length D), elementType = K \<rparr>"
  by (simp add: Type_init_def Type_default_def Type_copy_loop_eq)

lemma Type_init_Inl:
  "\<not> length D < max_tensor_dimensions \<Longrightarrow> Type_init K D = Inl AssertionFailed"
  by (simp add: Type_init_def)

lemma dims_Type_init:
  "length D < max_tensor_dimensions \<Longrightarrow>
   dims \<lparr> sizes = D @ replicate (max_tensor_dimensions - length D) 0,
          numSizes = of_nat (length D), elementType = K \<rparr> = D"
  by (simp add: dims_def unat_numSizes_of_length)

lemma length_dims: "in_bounds T \<Longrightarrow> length (dims T) = unat (numSizes T)"
  by (simp add: dims_def in_bounds_def)

lemma isEqual_loop_dims:
  assumes "in_bounds a" and "in_bounds b" and "numSizes a = numSizes b"
  shows "isEqual_loop 0 a b \<longleftrightarrow> dims a = dims b"
proof -
  have la: "length (dims a) = unat (numSizes a)" and lb: "length (dims b) = unat (numSizes a)"
    using assms by (simp_all add: length_dims)
  have nth: "dims a ! j = sizes a ! j" "dims b ! j = sizes b ! j" if "j < unat (numSizes a)" for j
    using that assms(3) by (simp_all add: dims_def)
  have "isEqual_loop 0 a b \<longleftrightarrow> (\<forall>j < unat (numSizes a). dims a ! j = dims b ! j)"
    by (simp add: isEqual_loop_iff nth)
  also have "\<dots> \<longleftrightarrow> dims a = dims b"
    using la lb by (auto intro: nth_equalityI)
  finally show ?thesis .
qed

lemma isEqual_dims:
  assumes "in_bounds a" and "in_bounds b"
  shows "isEqual a b \<longleftrightarrow>
         elementType a = elementType b \<and> numSizes a = numSizes b \<and> dims a = dims b"
  using isEqual_loop_dims [OF assms] by (auto simp: isEqual_def)

lemma size_of_prod:
  assumes "in_bounds T" and "numSizes T \<noteq> 0"
  shows "size_of T = prod_list (dims T)"
  using assms by (simp add: size_of_def size_loop_eq in_bounds_def)

section \<open>Construction\<close>

text \<open>
  C3. For every element kind \<open>K\<close> and every dimension sequence \<open>D\<close> shorter than
  \<open>max_tensor_dimensions\<close> (6), the constructor \<^verbatim>\<open>Type(K, D)\<close> returns a \<^verbatim>\<open>Type\<close> whose
  \<^verbatim>\<open>dims()\<close> is \<open>D\<close> (same length, same values, same order) and whose
  \<^verbatim>\<open>getElementType()\<close> is \<open>K\<close>.
\<close>

theorem Type_init_roundtrip:
  fixes D :: "'w::len size_t list"
  assumes "length D < max_tensor_dimensions"
  shows "\<exists>T. Type_init K D = Inr T \<and> dims T = D \<and> getElementType T = K"
  using assms
  by (simp add: Type_init_Inr dims_Type_init getElementType_def)

theorem Type_init_roundtrip_witness:
  "length [7, 3, 4, 2, 9 :: 64 word] < max_tensor_dimensions \<and>
   (\<exists>T. Type_init Int32Ty [7, 3, 4, 2, 9 :: 64 word] = Inr T \<and>
        dims T = [7, 3, 4, 2, 9] \<and> getElementType T = Int32Ty)"
proof -
  have len: "length [7, 3, 4, 2, 9 :: 64 word] < max_tensor_dimensions"
    by (simp add: max_tensor_dimensions_def)
  show ?thesis
    using len Type_init_roundtrip [OF len, of Int32Ty] by blast
qed

text \<open>
  C4. \<open>max_tensor_dimensions\<close> is 6. The constructor called with a dimension sequence of
  6 or more entries ends in the failed assertion \<^verbatim>\<open>"Too many indices"\<close>: it returns no
  \<^verbatim>\<open>Type\<close> at all, so nothing is truncated. Called with exactly
  \<open>max_tensor_dimensions - 1\<close> (5) entries it returns a \<^verbatim>\<open>Type\<close> that holds all of
  them.
\<close>

theorem Type_init_rank_check:
  fixes D :: "'w::len size_t list"
  shows "max_tensor_dimensions = 6 \<and>
         (max_tensor_dimensions \<le> length D \<longrightarrow>
            Type_init K D = Inl AssertionFailed \<and> fails_fast (Type_init K D)) \<and>
         (length D = max_tensor_dimensions - 1 \<longrightarrow>
            (\<exists>T. Type_init K D = Inr T \<and> dims T = D))"
proof -
  have "Type_init K D = Inl AssertionFailed \<and> fails_fast (Type_init K D)"
    if "max_tensor_dimensions \<le> length D"
    using that by (simp add: Type_init_Inl)
  moreover have "\<exists>T. Type_init K D = Inr T \<and> dims T = D"
    if "length D = max_tensor_dimensions - 1"
  proof -
    have "length D < max_tensor_dimensions"
      using that by (simp add: max_tensor_dimensions_def)
    then show ?thesis
      by (simp add: Type_init_Inr dims_Type_init)
  qed
  ultimately show ?thesis
    by (simp add: max_tensor_dimensions_def)
qed

theorem Type_init_rank_check_witness:
  "max_tensor_dimensions \<le> length [1, 2, 3, 4, 5, 6 :: 64 word] \<and>
   Type_init FloatTy [1, 2, 3, 4, 5, 6 :: 64 word] = Inl AssertionFailed \<and>
   length [1, 2, 3, 4, 5 :: 64 word] = max_tensor_dimensions - 1 \<and>
   (\<exists>T. Type_init FloatTy [1, 2, 3, 4, 5 :: 64 word] = Inr T \<and> dims T = [1, 2, 3, 4, 5])"
proof -
  have six: "max_tensor_dimensions \<le> length [1, 2, 3, 4, 5, 6 :: 64 word]"
    by (simp add: max_tensor_dimensions_def)
  have five: "length [1, 2, 3, 4, 5 :: 64 word] = max_tensor_dimensions - 1"
    by (simp add: max_tensor_dimensions_def)
  show ?thesis
    using six five
      Type_init_rank_check [of "[1, 2, 3, 4, 5, 6 :: 64 word]" FloatTy]
      Type_init_rank_check [of "[1, 2, 3, 4, 5 :: 64 word]" FloatTy]
    by blast
qed

section \<open>Equality\<close>

text \<open>
  C1. For all \<^verbatim>\<open>Type\<close> values \<open>a\<close> and \<open>b\<close> (objects whose reads stay inside the array,
  \<open>in_bounds\<close>), \<^verbatim>\<open>isEqual\<close> and \<^verbatim>\<open>operator==\<close> return true if and only if the element
  kinds are equal, the dimension counts are equal, and the populated dimension values
  are pairwise equal in order. The result depends on the populated prefix only:
  putting any contents \<open>ja\<close>, \<open>jb\<close> into the unused slots leaves it unchanged. For every
  kind, the types built from \<open>[2, 3]\<close> and from \<open>[2, 3, 1]\<close> compare unequal.
\<close>

theorem Type_isEqual_iff:
  fixes a b :: "'w::len size_t Type"
  assumes "in_bounds a" and "in_bounds b"
  shows "(isEqual a b \<longleftrightarrow>
            getElementType a = getElementType b \<and> numSizes a = numSizes b \<and>
            (\<forall>i < unat (numSizes a). dims a ! i = dims b ! i)) \<and>
         Type_operator_eq a b = isEqual a b \<and>
         (\<forall>ja jb. length ja = max_tensor_dimensions - unat (numSizes a) \<and>
                  length jb = max_tensor_dimensions - unat (numSizes b) \<longrightarrow>
                  isEqual (a\<lparr>sizes := dims a @ ja\<rparr>) (b\<lparr>sizes := dims b @ jb\<rparr>) = isEqual a b) \<and>
         (\<forall>K. \<exists>x y. Type_init K [2, 3 :: 'w size_t] = Inr x \<and>
                    Type_init K [2, 3, 1 :: 'w size_t] = Inr y \<and>
                    \<not> isEqual x y \<and> \<not> Type_operator_eq x y)"
proof -
  have main: "isEqual a b \<longleftrightarrow>
      getElementType a = getElementType b \<and> numSizes a = numSizes b \<and>
      (\<forall>i < unat (numSizes a). dims a ! i = dims b ! i)"
  proof (cases "numSizes a = numSizes b")
    case True
    have "length (dims a) = unat (numSizes a)" "length (dims b) = unat (numSizes a)"
      using assms True by (simp_all add: length_dims)
    then have "dims a = dims b \<longleftrightarrow> (\<forall>i < unat (numSizes a). dims a ! i = dims b ! i)"
      by (auto intro: nth_equalityI)
    then show ?thesis
      using isEqual_dims [OF assms] True by (simp add: getElementType_def)
  next
    case False
    then show ?thesis
      using isEqual_dims [OF assms] by simp
  qed
  have junk: "isEqual (a\<lparr>sizes := dims a @ ja\<rparr>) (b\<lparr>sizes := dims b @ jb\<rparr>) = isEqual a b"
    if la: "length ja = max_tensor_dimensions - unat (numSizes a)"
    and lb: "length jb = max_tensor_dimensions - unat (numSizes b)" for ja jb
  proof -
    let ?a = "a\<lparr>sizes := dims a @ ja\<rparr>" and ?b = "b\<lparr>sizes := dims b @ jb\<rparr>"
    have "in_bounds ?a" "in_bounds ?b"
      using assms la lb by (simp_all add: in_bounds_def dims_def)
    moreover have "dims ?a = dims a" "dims ?b = dims b"
      using assms by (simp_all add: dims_def in_bounds_def)
    ultimately show ?thesis
      using isEqual_dims [of ?a ?b] isEqual_dims [OF assms] by simp
  qed
  have example: "\<exists>x y. Type_init K [2, 3 :: 'w size_t] = Inr x \<and>
                    Type_init K [2, 3, 1 :: 'w size_t] = Inr y \<and>
                    \<not> isEqual x y \<and> \<not> Type_operator_eq x y" for K
    by (simp add: Type_init_Inr max_tensor_dimensions_def isEqual_def Type_operator_eq_def)
  show ?thesis
    using main junk example by (simp add: Type_operator_eq_def)
qed

theorem Type_isEqual_iff_witness:
  "in_bounds \<lparr> sizes = [2, 3, 0, 0, 0, 0 :: 64 word], numSizes = 2, elementType = FloatTy \<rparr> \<and>
   in_bounds \<lparr> sizes = [2, 3, 8, 9, 0, 7 :: 64 word], numSizes = 2, elementType = FloatTy \<rparr> \<and>
   isEqual \<lparr> sizes = [2, 3, 0, 0, 0, 0 :: 64 word], numSizes = 2, elementType = FloatTy \<rparr>
           \<lparr> sizes = [2, 3, 8, 9, 0, 7 :: 64 word], numSizes = 2, elementType = FloatTy \<rparr>"
proof -
  let ?a = "\<lparr> sizes = [2, 3, 0, 0, 0, 0 :: 64 word], numSizes = 2, elementType = FloatTy \<rparr>"
  let ?b = "\<lparr> sizes = [2, 3, 8, 9, 0, 7 :: 64 word], numSizes = 2, elementType = FloatTy \<rparr>"
  have a: "in_bounds ?a" and b: "in_bounds ?b"
    by (simp_all add: in_bounds_def max_tensor_dimensions_def)
  have "dims ?a = dims ?b"
    by (simp add: dims_def)
  then have "\<forall>i < unat (numSizes ?a). dims ?a ! i = dims ?b ! i"
    by simp
  then show ?thesis
    using a b Type_isEqual_iff [OF a b] by (simp add: getElementType_def)
qed

section \<open>Element count\<close>

text \<open>
  C2, as the code has it. For every \<^verbatim>\<open>Type\<close> \<open>T\<close> whose reads stay inside the array
  (every constructed one is such): if \<^verbatim>\<open>numSizes_\<close> is 0 then \<^verbatim>\<open>size()\<close> is 0, the
  explicit special case, not the empty product 1; otherwise \<^verbatim>\<open>size()\<close> is the product
  of the populated dimension sizes in \<^verbatim>\<open>size_t\<close> arithmetic, that is, the product of
  their values modulo \<open>2 ^ LENGTH('w)\<close>. Dimensions \<open>[7, 3, 4, 2]\<close> give 168. The size
  can be 0 with dimensions present; only the direction from \<^verbatim>\<open>numSizes_ = 0\<close> holds.
\<close>

theorem Type_size_of_product:
  fixes T :: "'w::len size_t Type"
  assumes "in_bounds T"
  shows "(numSizes T = 0 \<longrightarrow> size_of T = 0) \<and>
         (numSizes T \<noteq> 0 \<longrightarrow>
            size_of T = prod_list (dims T) \<and>
            unat (size_of T) = prod_list (map unat (dims T)) mod 2 ^ LENGTH('w)) \<and>
         (\<forall>K. \<exists>t. Type_init K [7, 3, 4, 2 :: 'w size_t] = Inr t \<and> size_of t = 168)"
proof -
  have zero: "size_of T = 0" if "numSizes T = 0"
    using that by (simp add: size_of_def)
  have prod: "size_of T = prod_list (dims T)" if "numSizes T \<noteq> 0"
    using assms that by (rule size_of_prod)
  have ex: "\<exists>t. Type_init K [7, 3, 4, 2 :: 'w size_t] = Inr t \<and> size_of t = 168" for K
  proof -
    let ?t = "\<lparr> sizes = [7, 3, 4, 2 :: 'w size_t] @ replicate (max_tensor_dimensions - 4) 0,
                 numSizes = 4, elementType = K \<rparr>"
    have init: "Type_init K [7, 3, 4, 2 :: 'w size_t] = Inr ?t"
      by (simp add: Type_init_Inr max_tensor_dimensions_def)
    have d: "dims ?t = [7, 3, 4, 2]"
      by (simp add: dims_def)
    have "in_bounds ?t" "numSizes ?t \<noteq> 0"
      by (simp_all add: in_bounds_def max_tensor_dimensions_def)
    then have "size_of ?t = prod_list (dims ?t)"
      by (rule size_of_prod)
    then have "size_of ?t = prod_list [7, 3, 4, 2]"
      by (simp only: d)
    then have "size_of ?t = 168"
      by simp
    then show ?thesis
      using init by blast
  qed
  show ?thesis
    using zero prod ex by (simp add: unat_prod_list)
qed

theorem Type_size_of_product_witness:
  "in_bounds \<lparr> sizes = [7, 3, 4, 2, 0, 0 :: 64 word], numSizes = 4, elementType = FloatTy \<rparr> \<and>
   numSizes \<lparr> sizes = [7, 3, 4, 2, 0, 0 :: 64 word], numSizes = 4, elementType = FloatTy \<rparr> \<noteq> 0 \<and>
   size_of \<lparr> sizes = [7, 3, 4, 2, 0, 0 :: 64 word], numSizes = 4, elementType = FloatTy \<rparr> = 168"
proof -
  let ?t = "\<lparr> sizes = [7, 3, 4, 2, 0, 0 :: 64 word], numSizes = 4, elementType = FloatTy \<rparr>"
  have b: "in_bounds ?t"
    by (simp add: in_bounds_def max_tensor_dimensions_def)
  have nz: "numSizes ?t \<noteq> 0"
    by simp
  have "dims ?t = [7, 3, 4, 2]"
    by (simp add: dims_def)
  then show ?thesis
    using b nz Type_size_of_product [OF b] by simp
qed

text \<open>
  C2 as the specification words it, "\<^verbatim>\<open>size()\<close> is 0 exactly when the dimension count
  is 0", fails: the type constructed from the one-entry sequence \<open>[0]\<close> has one
  dimension and size 0.
\<close>

theorem Type_size_zero_counterexample:
  "Type_init FloatTy [0 :: 64 word] =
     Inr \<lparr> sizes = [0, 0, 0, 0, 0, 0], numSizes = 1, elementType = FloatTy \<rparr> \<and>
   \<not> (size_of \<lparr> sizes = [0, 0, 0, 0, 0, 0 :: 64 word], numSizes = 1, elementType = FloatTy \<rparr> = 0
        \<longleftrightarrow> numSizes \<lparr> sizes = [0, 0, 0, 0, 0, 0 :: 64 word], numSizes = 1,
                       elementType = FloatTy \<rparr> = 0)"
proof -
  let ?t = "\<lparr> sizes = [0, 0, 0, 0, 0, 0 :: 64 word], numSizes = 1, elementType = FloatTy \<rparr>"
  have "Type_init FloatTy [0 :: 64 word] = Inr ?t"
    by (simp add: Type_init_Inr max_tensor_dimensions_def numeral_eq_Suc)
  moreover have "size_of ?t = 0"
    by (simp add: size_of_def size_loop_eq dims_def)
  ultimately show ?thesis
    by simp
qed

section \<open>Properties of flattenCdr\<close>

text \<open>
  C5. For every dimension sequence \<open>ds\<close> of length at least 2, \<^verbatim>\<open>flattenCdr\<close> returns
  the pair of \<open>ds ! 0\<close> and the product of the entries from index 1 on; the product is
  a \<^verbatim>\<open>size_t\<close> product, so its value is the product of the values modulo
  \<open>2 ^ LENGTH('w)\<close>. \<^verbatim>\<open>flattenCdr([7,3,4,2])\<close> is \<open>(7, 24)\<close> and \<^verbatim>\<open>flattenCdr([5,2])\<close> is
  \<open>(5, 2)\<close>. On a sequence shorter than 2 the call ends in the failed assertion.
\<close>

theorem flattenCdr_pair:
  fixes ds :: "'w::len size_t list"
  shows "(2 \<le> length ds \<longrightarrow>
            flattenCdr ds = Inr (ds ! 0, prod_list (drop 1 ds)) \<and>
            unat (prod_list (drop 1 ds)) = prod_list (map unat (drop 1 ds)) mod 2 ^ LENGTH('w)) \<and>
         (length ds < 2 \<longrightarrow>
            flattenCdr ds = Inl AssertionFailed \<and> fails_fast (flattenCdr ds)) \<and>
         flattenCdr [7, 3, 4, 2 :: 'w size_t] = Inr (7, 24) \<and>
         flattenCdr [5, 2 :: 'w size_t] = Inr (5, 2)"
proof -
  have pair: "flattenCdr xs = Inr (xs ! 0, prod_list (drop 1 xs))"
    if "2 \<le> length xs" for xs :: "'w size_t list"
  proof -
    have "drop 1 xs = xs ! 1 # drop 2 xs"
      using that by (simp add: Cons_nth_drop_Suc numeral_2_eq_2)
    then show ?thesis
      using that by (simp add: flattenCdr_def flattenCdr_loop_eq)
  qed
  have short: "flattenCdr ds = Inl AssertionFailed \<and> fails_fast (flattenCdr ds)"
    if "length ds < 2"
    using that by (simp add: flattenCdr_def)
  have "flattenCdr [7, 3, 4, 2 :: 'w size_t] = Inr (7, 24)"
    using pair [of "[7, 3, 4, 2]"] by simp
  moreover have "flattenCdr [5, 2 :: 'w size_t] = Inr (5, 2)"
    using pair [of "[5, 2]"] by simp
  ultimately show ?thesis
    using pair [of ds] short by (simp add: unat_prod_list)
qed

theorem flattenCdr_pair_witness:
  "2 \<le> length [3, 5, 2, 4 :: 64 word] \<and>
   flattenCdr [3, 5, 2, 4 :: 64 word] = Inr (3, 40) \<and>
   length [9 :: 64 word] < 2 \<and>
   flattenCdr [9 :: 64 word] = Inl AssertionFailed"
  using flattenCdr_pair [of "[3, 5, 2, 4 :: 64 word]"] flattenCdr_pair [of "[9 :: 64 word]"]
  by simp

section \<open>Element-kind metadata\<close>

text \<open>
  C6. \<^verbatim>\<open>getElementSize\<close> and \<^verbatim>\<open>getElementName\<close> read nothing but their argument (the
  model gives them no state), so equal kinds give equal results. On the five named
  kinds they return the table: \<^verbatim>\<open>FloatTy\<close> 4 and \<open>''float''\<close>, \<^verbatim>\<open>DoubleTy\<close> 8 and
  \<open>''double''\<close>, \<^verbatim>\<open>Int8Ty\<close> 1 and \<open>''i8''\<close>, \<^verbatim>\<open>Int32Ty\<close> 4 and \<open>''i32''\<close>, \<^verbatim>\<open>IndexTy\<close>
  the byte width of \<^verbatim>\<open>size_t\<close> and \<open>''index''\<close>. Every named kind has a non-empty name,
  and a positive byte size on a platform whose \<^verbatim>\<open>size_t\<close> has at least 8 bits.
\<close>

theorem element_metadata_table:
  fixes P :: "'w::len itself"
  shows "getElementSize P FloatTy = Inr 4 \<and> getElementName FloatTy = Inr ''float'' \<and>
         getElementSize P DoubleTy = Inr 8 \<and> getElementName DoubleTy = Inr ''double'' \<and>
         getElementSize P Int8Ty = Inr 1 \<and> getElementName Int8Ty = Inr ''i8'' \<and>
         getElementSize P Int32Ty = Inr 4 \<and> getElementName Int32Ty = Inr ''i32'' \<and>
         getElementSize P IndexTy = Inr (LENGTH('w) div 8) \<and>
         getElementName IndexTy = Inr ''index'' \<and>
         (\<forall>k \<in> set named_kinds.
            (\<exists>nm. getElementName k = Inr nm \<and> nm \<noteq> []) \<and>
            (8 \<le> LENGTH('w) \<longrightarrow> (\<exists>sz. getElementSize P k = Inr sz \<and> 0 < sz))) \<and>
         (\<forall>k k'. k = k' \<longrightarrow>
            getElementSize P k = getElementSize P k' \<and> getElementName k = getElementName k')"
proof -
  have sizes4: "getElementSize P FloatTy = Inr 4" "getElementSize P DoubleTy = Inr 8"
    "getElementSize P Int8Ty = Inr 1" "getElementSize P Int32Ty = Inr 4"
    "getElementSize P IndexTy = Inr (LENGTH('w) div 8)"
    by (simp_all add: getElementSize_def FloatTy_def DoubleTy_def Int8Ty_def Int32Ty_def
        IndexTy_def sizeof_float_def sizeof_double_def sizeof_int8_t_def sizeof_int32_t_def
        sizeof_size_t_def)
  have names5: "getElementName FloatTy = Inr ''float''" "getElementName DoubleTy = Inr ''double''"
    "getElementName Int8Ty = Inr ''i8''" "getElementName Int32Ty = Inr ''i32''"
    "getElementName IndexTy = Inr ''index''"
    by (simp_all add: getElementName_def names_def FloatTy_def DoubleTy_def Int8Ty_def
        Int32Ty_def IndexTy_def)
  have pos: "0 < LENGTH('w) div 8" if "8 \<le> LENGTH('w)"
    using that by (simp add: div_greater_zero_iff)
  show ?thesis
    using sizes4 names5 pos by (simp add: named_kinds_def)
qed

theorem element_metadata_table_witness:
  "IndexTy \<in> set named_kinds \<and> (8::nat) \<le> LENGTH(64) \<and>
   (\<exists>nm. getElementName IndexTy = Inr nm \<and> nm \<noteq> []) \<and>
   (\<exists>sz. getElementSize TYPE(64) IndexTy = Inr sz \<and> 0 < sz) \<and>
   getElementSize TYPE(64) IndexTy = Inr 8"
proof -
  have mem: "IndexTy \<in> set named_kinds"
    by (simp add: named_kinds_def)
  have wide: "(8::nat) \<le> LENGTH(64)"
    by simp
  have "getElementSize TYPE(64) IndexTy = Inr (LENGTH(64) div 8)"
    using element_metadata_table [of "TYPE(64)"] by blast
  then have "getElementSize TYPE(64) IndexTy = Inr 8"
    by simp
  then show ?thesis
    using mem wide element_metadata_table [of "TYPE(64)"] by blast
qed

text \<open>
  C7 asks that both lookups abort on a kind outside the five named ones. The switch of
  \<^verbatim>\<open>getElementSize\<close> falls through to \<^verbatim>\<open>glow_unreachable()\<close>. \<^verbatim>\<open>getElementName\<close> has no
  such guard: at the kind with value 5 it indexes the five-entry table \<^verbatim>\<open>names\<close> at
  position 5, a read past the end and not an abort.
\<close>

theorem getElementName_unguarded:
  "fails_fast (getElementSize TYPE(64) 5) \<and>
   getElementName 5 = Inl OutOfBounds \<and>
   \<not> fails_fast (getElementName 5)"
  by (simp add: getElementSize_def getElementName_def names_def glow_unreachable_def
      FloatTy_def DoubleTy_def Int8Ty_def Int32Ty_def IndexTy_def)

section \<open>The default Type and the stored representation\<close>

text \<open>
  C8. The default-constructed \<^verbatim>\<open>Type\<close> has \<^verbatim>\<open>numSizes_\<close> 0 (so \<^verbatim>\<open>dims()\<close> is empty),
  element kind \<^verbatim>\<open>IndexTy\<close> and \<^verbatim>\<open>size()\<close> 0, and it compares unequal, in both argument
  orders and through \<^verbatim>\<open>operator==\<close> as well, to every \<^verbatim>\<open>Type\<close> \<open>T\<close> with a dimension count
  above 0, whatever the element kind of \<open>T\<close>.
\<close>

theorem Type_default_empty:
  fixes T :: "'w::len size_t Type"
  shows "numSizes (Type_default :: 'w size_t Type) = 0 \<and>
         dims (Type_default :: 'w size_t Type) = [] \<and>
         getElementType (Type_default :: 'w size_t Type) = IndexTy \<and>
         size_of (Type_default :: 'w size_t Type) = 0 \<and>
         (0 < unat (numSizes T) \<longrightarrow>
            \<not> isEqual Type_default T \<and> \<not> isEqual T Type_default \<and>
            \<not> Type_operator_eq Type_default T \<and> \<not> Type_operator_eq T Type_default)"
proof -
  have "numSizes T \<noteq> 0" if "0 < unat (numSizes T)"
    using that by auto
  then show ?thesis
    by (auto simp: Type_default_def dims_def getElementType_def size_of_def isEqual_def
        Type_operator_eq_def)
qed

theorem Type_default_empty_witness:
  "0 < unat (numSizes \<lparr> sizes = [4, 0, 0, 0, 0, 0 :: 64 word], numSizes = 1,
                         elementType = IndexTy \<rparr>) \<and>
   \<not> isEqual Type_default
        \<lparr> sizes = [4, 0, 0, 0, 0, 0 :: 64 word], numSizes = 1, elementType = IndexTy \<rparr> \<and>
   \<not> isEqual \<lparr> sizes = [4, 0, 0, 0, 0, 0 :: 64 word], numSizes = 1, elementType = IndexTy \<rparr>
        Type_default"
proof -
  let ?t = "\<lparr> sizes = [4, 0, 0, 0, 0, 0 :: 64 word], numSizes = 1, elementType = IndexTy \<rparr>"
  have pos: "0 < unat (numSizes ?t)"
    by simp
  show ?thesis
    using pos Type_default_empty [of ?t] by blast
qed

text \<open>
  C10. In the \<^verbatim>\<open>Type\<close> produced by either constructor the array has its
  \<open>max_tensor_dimensions\<close> slots, the count stays below \<open>max_tensor_dimensions\<close>, and
  every slot at an index at or beyond the count holds 0. The constructor from
  \<open>(K, D)\<close>, its precondition satisfied, stores exactly \<open>D\<close> followed by zeros, the
  length of \<open>D\<close>, and \<open>K\<close>. Hence the stored representation of a constructed \<^verbatim>\<open>Type\<close> is
  a function of its kind and its \<^verbatim>\<open>dims()\<close>: two constructed types with the same kind
  and the same dimensions are the same object, slot for slot.
\<close>

theorem Type_unused_slots_zero:
  fixes T T' :: "'w::len size_t Type" and D D' :: "'w size_t list"
  shows "(length D < max_tensor_dimensions \<longrightarrow>
            Type_init K D =
              Inr \<lparr> sizes = D @ replicate (max_tensor_dimensions - length D) 0,
                    numSizes = of_nat (length D), elementType = K \<rparr>) \<and>
         (T = Type_default \<or> Type_init K D = Inr T \<longrightarrow>
            length (sizes T) = max_tensor_dimensions \<and>
            unat (numSizes T) < max_tensor_dimensions \<and>
            (\<forall>i. unat (numSizes T) \<le> i \<and> i < max_tensor_dimensions \<longrightarrow> sizes T ! i = 0)) \<and>
         ((T = Type_default \<or> Type_init K D = Inr T) \<and>
          (T' = Type_default \<or> Type_init K' D' = Inr T') \<and>
          getElementType T = getElementType T' \<and> dims T = dims T' \<longrightarrow> T = T')"
proof -
  let ?rep = "\<lambda>(k :: ElemKind) (d :: 'w size_t list).
    \<lparr> sizes = d @ replicate (max_tensor_dimensions - length d) 0,
      numSizes = of_nat (length d), elementType = k \<rparr>"
  have init: "Type_init k d = Inr (?rep k d)" if "length d < max_tensor_dimensions"
    for k and d :: "'w size_t list"
    using that by (rule Type_init_Inr)
  have default_rep: "(Type_default :: 'w size_t Type) = ?rep IndexTy []"
    by (simp add: Type_default_def)
  have made: "\<exists>k d. length d < max_tensor_dimensions \<and> X = ?rep k d"
    if "X = Type_default \<or> Type_init k0 d0 = Inr X"
    for X :: "'w size_t Type" and k0 d0
  proof (cases "X = Type_default")
    case True
    then have "length ([] :: 'w size_t list) < max_tensor_dimensions \<and> X = ?rep IndexTy []"
      using default_rep by (simp add: max_tensor_dimensions_def)
    then show ?thesis by blast
  next
    case False
    then have r: "Type_init k0 d0 = Inr X"
      using that by simp
    then have len: "length d0 < max_tensor_dimensions"
      by (cases "length d0 < max_tensor_dimensions") (simp_all add: Type_init_Inl)
    then have "X = ?rep k0 d0"
      using r init [OF len] by simp
    then show ?thesis
      using len by blast
  qed
  have rep_props: "length (sizes (?rep k d)) = max_tensor_dimensions \<and>
      unat (numSizes (?rep k d)) < max_tensor_dimensions \<and>
      (\<forall>i. unat (numSizes (?rep k d)) \<le> i \<and> i < max_tensor_dimensions \<longrightarrow>
           sizes (?rep k d) ! i = 0) \<and>
      getElementType (?rep k d) = k \<and> dims (?rep k d) = d"
    if "length d < max_tensor_dimensions" for k and d :: "'w size_t list"
    using that
    by (auto simp: unat_numSizes_of_length nth_append getElementType_def dims_Type_init)
  have slots: "length (sizes T) = max_tensor_dimensions \<and>
      unat (numSizes T) < max_tensor_dimensions \<and>
      (\<forall>i. unat (numSizes T) \<le> i \<and> i < max_tensor_dimensions \<longrightarrow> sizes T ! i = 0)"
    if t: "T = Type_default \<or> Type_init K D = Inr T"
  proof -
    obtain k d where "length d < max_tensor_dimensions" "T = ?rep k d"
      using made [OF t] by blast
    then show ?thesis
      using rep_props [of d k] by simp
  qed
  have same: "T = T'"
    if t: "T = Type_default \<or> Type_init K D = Inr T"
    and t': "T' = Type_default \<or> Type_init K' D' = Inr T'"
    and q: "getElementType T = getElementType T'" "dims T = dims T'"
  proof -
    obtain k d where kd: "length d < max_tensor_dimensions" "T = ?rep k d"
      using made [OF t] by blast
    obtain k' d' where kd': "length d' < max_tensor_dimensions" "T' = ?rep k' d'"
      using made [OF t'] by blast
    have "k = k'" "d = d'"
      using q kd kd' rep_props [of d k] rep_props [of d' k'] by simp_all
    then show ?thesis
      using kd kd' by simp
  qed
  show ?thesis
    using init [of D K] slots same by blast
qed

theorem Type_unused_slots_zero_witness:
  "length [2, 3 :: 64 word] < max_tensor_dimensions \<and>
   Type_init Int8Ty [2, 3 :: 64 word] =
     Inr \<lparr> sizes = [2, 3, 0, 0, 0, 0], numSizes = 2, elementType = Int8Ty \<rparr> \<and>
   unat (numSizes \<lparr> sizes = [2, 3, 0, 0, 0, 0 :: 64 word], numSizes = 2,
                      elementType = Int8Ty \<rparr>) \<le> 4 \<and>
   4 < max_tensor_dimensions \<and>
   sizes \<lparr> sizes = [2, 3, 0, 0, 0, 0 :: 64 word], numSizes = 2, elementType = Int8Ty \<rparr> ! 4 = 0"
proof -
  let ?t = "\<lparr> sizes = [2, 3, 0, 0, 0, 0 :: 64 word], numSizes = 2, elementType = Int8Ty \<rparr>"
  note spec = Type_unused_slots_zero [of "[2, 3 :: 64 word]" Int8Ty ?t]
  have len: "length [2, 3 :: 64 word] < max_tensor_dimensions"
    by (simp add: max_tensor_dimensions_def)
  have "Type_init Int8Ty [2, 3 :: 64 word] =
     Inr \<lparr> sizes = [2, 3 :: 64 word] @ replicate (max_tensor_dimensions - length [2, 3 :: 64 word]) 0,
           numSizes = of_nat (length [2, 3 :: 64 word]), elementType = Int8Ty \<rparr>"
    using len spec by blast
  then have made: "Type_init Int8Ty [2, 3 :: 64 word] = Inr ?t"
    by (simp add: max_tensor_dimensions_def numeral_eq_Suc)
  have idx: "unat (numSizes ?t) \<le> 4" "4 < max_tensor_dimensions"
    by (simp_all add: max_tensor_dimensions_def)
  have "\<forall>i. unat (numSizes ?t) \<le> i \<and> i < max_tensor_dimensions \<longrightarrow> sizes ?t ! i = 0"
    using made spec by blast
  then have "sizes ?t ! 4 = 0"
    using idx by blast
  then show ?thesis
    using len made idx by blast
qed

section \<open>Properties of ShapeNHWC\<close>

text \<open>
  C9. For all four values, \<^verbatim>\<open>ShapeNHWC\<close> built from the sequence of the four is the
  \<^verbatim>\<open>ShapeNHWC\<close> built from the four positional values, and the two compare equal
  (e.g. \<open>(2,3,4,5)\<close> and \<open>[2,3,4,5]\<close>); built from a sequence whose length is not 4, the
  constructor ends in the failed assertion; \<^verbatim>\<open>equals\<close> and \<^verbatim>\<open>operator==\<close> hold exactly
  when the four fields \<open>n\<close>, \<open>h\<close>, \<open>w\<close>, \<open>c\<close> are pairwise equal.
\<close>

theorem ShapeNHWC_constructors_agree:
  fixes samples height width channels :: "'w::len size_t"
    and shape :: "'w size_t list" and x y :: "'w size_t ShapeNHWC"
  shows "ShapeNHWC_of_shape [samples, height, width, channels] =
           Inr (ShapeNHWC_of_values samples height width channels) \<and>
         (\<exists>S. ShapeNHWC_of_shape [samples, height, width, channels] = Inr S \<and>
              ShapeNHWC_operator_eq (ShapeNHWC_of_values samples height width channels) S \<and>
              n S = samples \<and> h S = height \<and> w S = width \<and> c S = channels) \<and>
         ShapeNHWC_of_shape [2, 3, 4, 5 :: 'w size_t] = Inr (ShapeNHWC_of_values 2 3 4 5) \<and>
         (length shape \<noteq> 4 \<longrightarrow>
            ShapeNHWC_of_shape shape = Inl AssertionFailed \<and>
            fails_fast (ShapeNHWC_of_shape shape)) \<and>
         (equals x y \<longleftrightarrow> n x = n y \<and> h x = h y \<and> w x = w y \<and> c x = c y) \<and>
         (ShapeNHWC_operator_eq x y \<longleftrightarrow> n x = n y \<and> h x = h y \<and> w x = w y \<and> c x = c y) \<and>
         (ShapeNHWC_operator_eq x y \<longleftrightarrow> x = y)"
  by (auto simp: ShapeNHWC_of_shape_def ShapeNHWC_of_values_def ShapeNHWC_operator_eq_def
      equals_def)

theorem ShapeNHWC_constructors_agree_witness:
  "length [2, 3, 4 :: 64 word] \<noteq> 4 \<and>
   ShapeNHWC_of_shape [2, 3, 4 :: 64 word] = Inl AssertionFailed \<and>
   ShapeNHWC_of_shape [2, 3, 4, 5 :: 64 word] = Inr (ShapeNHWC_of_values 2 3 4 5)"
proof -
  have three: "length [2, 3, 4 :: 64 word] \<noteq> 4"
    by simp
  show ?thesis
    using three ShapeNHWC_constructors_agree [where shape = "[2, 3, 4 :: 64 word]"]
    by blast
qed

end
